theory Spec2Isabelle
  imports Complex_Main
begin

section \<open>Box-counting fractal dimension engine (fractal\_engine.py)\<close>

text \<open>
  The engine computes on numpy float64 arrays. The embedding of the engine computes
  in exact arithmetic on the reals: a finite float is the real it denotes, and
  rounding, overflow and signed zeros are not modelled. The non-finite values, which
  \<open>validate_data\<close> tests for and which \<open>np.log10\<close> produces on a non-positive
  argument, are separate constructors. The exact embedding agrees with the code
  wherever no arithmetic result is rounded; the closed theorems below are stated at
  such inputs. What is stated for all inputs is stated on definitions that take the
  rounding as a parameter (\<open>get_box_counts_on\<close>, \<open>arange_fl\<close>, \<open>linspace_fl\<close>,
  \<open>logspace_fl\<close>), of which the exact definitions are instances, or does not depend
  on the arithmetic at all (validation and the box size check).
\<close>

subsection \<open>Values and errors\<close>

datatype float64 = Num real | PosInf | NegInf | NaN

text \<open>
  Every failure of the engine is a Python \<open>ValueError\<close> (or an exception raised
  inside numpy or scipy); the constructors name the place that raises. The first
  five are the \<open>raise\<close> statements of \<open>validate_data\<close>, in source order, the sixth
  is the \<open>raise\<close> of \<open>box_counting\<close>. The others are raised by the libraries:
  \<open>Reduction_Empty\<close> by \<open>min\<close>/\<open>max\<close> of an empty array, \<open>Arange_Length\<close> by
  \<open>np.arange\<close> when the length \<open>ceil((stop - start) / step)\<close> is not a number or
  not finite, \<open>Histogram_Input\<close> by \<open>np.histogram2d\<close> on samples of different
  lengths or on an empty edge array, \<open>Linspace_Negative\<close> by \<open>np.logspace\<close> with a
  negative \<open>num\<close>, \<open>Linregress_Empty\<close>, \<open>Linregress_Identical\<close> and
  \<open>Linregress_Shape\<close> by \<open>scipy.stats.linregress\<close>.
\<close>

datatype error =
    Empty_Coordinates
  | Length_Mismatch
  | Non_Finite
  | Latitude_Range
  | Longitude_Range
  | Box_Size_Order
  | Reduction_Empty
  | Arange_Length
  | Histogram_Input
  | Linspace_Negative
  | Linregress_Empty
  | Linregress_Identical
  | Linregress_Shape

text \<open>The specification's taxonomy: a \<open>ValidationError\<close> is a failure of
  \<open>validate_data\<close>, a \<open>ParameterError\<close> is the failure of the box size check.\<close>

fun is_ValidationError :: "error \<Rightarrow> bool" where
  "is_ValidationError Empty_Coordinates = True"
| "is_ValidationError Length_Mismatch = True"
| "is_ValidationError Non_Finite = True"
| "is_ValidationError Latitude_Range = True"
| "is_ValidationError Longitude_Range = True"
| "is_ValidationError _ = False"


datatype warning = Too_Few_Valid_Box_Sizes

subsection \<open>validate\_data\<close>

fun isfinite :: "float64 \<Rightarrow> bool" where
  "isfinite (Num _) = True"
| "isfinite _ = False"

text \<open>\<open>np.abs(v) > bound\<close>: an infinity exceeds every bound, a comparison with NaN
  is false.\<close>

fun abs_gt :: "float64 \<Rightarrow> real \<Rightarrow> bool" where
  "abs_gt (Num r) b = (\<bar>r\<bar> > b)"
| "abs_gt PosInf b = True"
| "abs_gt NegInf b = True"
| "abs_gt NaN b = False"

definition validate_data :: "float64 list \<Rightarrow> float64 list \<Rightarrow> error + unit" where
  "validate_data latitudes longitudes =
     (if length latitudes = 0 \<or> length longitudes = 0 then Inl Empty_Coordinates
      else if length latitudes \<noteq> length longitudes then Inl Length_Mismatch
      else if \<not> list_all isfinite latitudes \<or> \<not> list_all isfinite longitudes
        then Inl Non_Finite
      else if list_ex (\<lambda>v. abs_gt v 90) latitudes then Inl Latitude_Range
      else if list_ex (\<lambda>v. abs_gt v 180) longitudes then Inl Longitude_Range
      else Inr ())"

subsection \<open>get\_box\_counts\<close>

text \<open>\<open>arr.min()\<close> and \<open>arr.max()\<close> of a non-empty array.\<close>

definition amin :: "real list \<Rightarrow> real" where
  "amin xs = Min (set xs)"

definition amax :: "real list \<Rightarrow> real" where
  "amax xs = Max (set xs)"

text \<open>
  \<open>np.arange(start, stop, step)\<close> has \<open>ceil((stop - start) / step)\<close> elements
  (none when that is not positive), the \<open>k\<close>-th being \<open>start + k * step\<close>; the
  stop value itself is excluded.
\<close>

definition arange :: "real \<Rightarrow> real \<Rightarrow> real \<Rightarrow> real list" where
  "arange start stop step =
     map (\<lambda>k. start + real k * step) [0..<nat \<lceil>(stop - start) / step\<rceil>]"

text \<open>
  \<open>np.histogram2d(x, y, bins=[xedges, yedges])\<close> with explicit edge arrays: an
  array of \<open>m\<close> edges makes \<open>m - 1\<close> bins, half-open on the right except the last
  one, which includes its right edge. numpy numbers the bin of a sample by
  \<open>searchsorted(edges, v, side='right')\<close> (the number of edges \<open>\<le> v\<close>), moves a
  sample equal to the last edge one bin to the left, and drops the outlier bins
  \<open>0\<close> and \<open>m\<close>, keeping the numbers \<open>1 .. m - 1\<close>.
\<close>

definition searchsorted_right :: "real list \<Rightarrow> real \<Rightarrow> nat" where
  "searchsorted_right edges v = length (filter (\<lambda>e. e \<le> v) edges)"

definition bin_number :: "real list \<Rightarrow> real \<Rightarrow> nat" where
  "bin_number edges v =
     (let k = searchsorted_right edges v in if v = last edges then k - 1 else k)"

definition histogram2d ::
  "real list \<Rightarrow> real list \<Rightarrow> real list \<Rightarrow> real list \<Rightarrow> nat list list" where
  "histogram2d xs ys xedges yedges =
     map (\<lambda>i. map (\<lambda>j. length (filter (\<lambda>(x, y). bin_number xedges x = i \<and>
                                               bin_number yedges y = j) (zip xs ys)))
                   [1..<length yedges])
         [1..<length xedges]"

text \<open>\<open>np.sum(hist > 0)\<close>: the number of cells of the histogram that hold a sample.\<close>

definition count_positive :: "nat list list \<Rightarrow> nat" where
  "count_positive hist = sum_list (map (\<lambda>row. length (filter (\<lambda>c. 0 < c) row)) hist)"

definition get_box_counts :: "real list \<Rightarrow> real list \<Rightarrow> float64 \<Rightarrow> error + nat" where
  "get_box_counts latitudes longitudes box_size =
     (if latitudes = [] \<or> longitudes = [] then Inl Reduction_Empty
      else case box_size of
        Num b \<Rightarrow>
          if b = 0 then Inl Arange_Length
          else
            let lat_min = amin latitudes; lat_max = amax latitudes;
                lon_min = amin longitudes; lon_max = amax longitudes;
                lat_bins = arange lat_min (lat_max + b) b;
                lon_bins = arange lon_min (lon_max + b) b
            in if length latitudes \<noteq> length longitudes \<or> lat_bins = [] \<or> lon_bins = []
               then Inl Histogram_Input
               else Inr (count_positive (histogram2d latitudes longitudes lat_bins lon_bins))
      | _ \<Rightarrow> Inl Arange_Length)"

subsection \<open>calculate\_fractal\_dimension\<close>

text \<open>\<open>np.log10\<close>: minus infinity at zero, NaN on a negative argument (numpy warns,
  it does not raise).\<close>

fun log10 :: "float64 \<Rightarrow> float64" where
  "log10 (Num x) = (if 0 < x then Num (log 10 x) else if x = 0 then NegInf else NaN)"
| "log10 PosInf = PosInf"
| "log10 NegInf = NaN"
| "log10 NaN = NaN"

fun fneg :: "float64 \<Rightarrow> float64" where
  "fneg (Num x) = Num (- x)"
| "fneg PosInf = NegInf"
| "fneg NegInf = PosInf"
| "fneg NaN = NaN"

fun fsquare :: "float64 \<Rightarrow> float64" where
  "fsquare (Num x) = Num (x ^ 2)"
| "fsquare PosInf = PosInf"
| "fsquare NegInf = PosInf"
| "fsquare NaN = NaN"

fun value_of :: "float64 \<Rightarrow> real option" where
  "value_of (Num x) = Some x"
| "value_of _ = None"

definition mean :: "real list \<Rightarrow> real" where
  "mean xs = sum_list xs / real (length xs)"

record regression =
  slope :: float64
  intercept :: float64
  rvalue :: float64
  stderr :: float64

text \<open>
  \<open>scipy.stats.linregress(x, y)\<close>, following scipy's source: it raises on empty
  input and on more than one identical \<open>x\<close> value; \<open>ssxm\<close>, \<open>ssxym\<close> and \<open>ssym\<close>
  are the entries of \<open>np.cov(x, y, bias=1)\<close>, the mean squares and the mean
  product of the deviations; \<open>r\<close> is \<open>0\<close> when a variance is \<open>0\<close> and is clipped
  to \<open>[-1, 1]\<close>; the standard error is \<open>0\<close> for two points. A single point
  has \<open>ssxm = 0\<close>, so that the slope is \<open>0 / 0\<close>, a NaN, and so are the intercept
  and the standard error. The p-value, which the engine discards, is left out.
  On a non-finite input (the logarithm of a box size \<open>\<le> 0\<close> or of a count \<open>0\<close>,
  neither of which \<open>box_counting\<close> passes on) the sums of numpy are not numbers;
  the model writes NaN in every field there and follows numpy no further.
\<close>

definition linregress_finite :: "real list \<Rightarrow> real list \<Rightarrow> regression" where
  "linregress_finite x y =
     (let n = length x;
          xmean = mean x;
          ymean = mean y;
          ssxm = mean (map (\<lambda>u. (u - xmean) * (u - xmean)) x);
          ssxym = mean (map (\<lambda>(u, v). (u - xmean) * (v - ymean)) (zip x y));
          ssym = mean (map (\<lambda>v. (v - ymean) * (v - ymean)) y);
          r = (if ssxm = 0 \<or> ssym = 0 then 0
               else let q = ssxym / sqrt (ssxm * ssym)
                    in if q > 1 then 1 else if q < - 1 then - 1 else q)
      in if ssxm = 0
         then \<lparr>slope = NaN, intercept = NaN, rvalue = Num r, stderr = NaN\<rparr>
         else
           let sl = ssxym / ssxm
           in \<lparr>slope = Num sl,
               intercept = Num (ymean - sl * xmean),
               rvalue = Num r,
               stderr = Num (if n = 2 then 0
                             else sqrt ((1 - r ^ 2) * ssym / ssxm / (real n - 2)))\<rparr>)"

definition linregress :: "float64 list \<Rightarrow> float64 list \<Rightarrow> error + regression" where
  "linregress xs ys =
     (if xs = [] \<or> ys = [] then Inl Linregress_Empty
      else case (those (map value_of xs), those (map value_of ys)) of
        (Some x, Some y) \<Rightarrow>
          if 1 < length x \<and> amax x = amin x then Inl Linregress_Identical
          else if length x \<noteq> length y then Inl Linregress_Shape
          else Inr (linregress_finite x y)
      | _ \<Rightarrow> Inr \<lparr>slope = NaN, intercept = NaN, rvalue = NaN, stderr = NaN\<rparr>)"

text \<open>The result tuple \<open>(D, r_squared, std_err, intercept)\<close>.\<close>

definition calculate_fractal_dimension ::
  "float64 list \<Rightarrow> nat list \<Rightarrow> error + (float64 \<times> float64 \<times> float64 \<times> float64)" where
  "calculate_fractal_dimension box_sizes counts =
     (let log_r = map log10 box_sizes;
          log_N = map (\<lambda>c. log10 (Num (real c))) counts
      in case linregress log_r log_N of
           Inl e \<Rightarrow> Inl e
         | Inr reg \<Rightarrow>
             Inr (fneg (slope reg), fsquare (rvalue reg), stderr reg, intercept reg))"

subsection \<open>box\_counting\<close>

text \<open>
  \<open>np.linspace(start, stop, num)\<close> with the end point included, following numpy's
  source: \<open>num\<close> samples \<open>start + k * step\<close> with \<open>step = (stop - start) / (num - 1)\<close>,
  the last one overwritten by \<open>stop\<close> when there are at least two; a single
  sample is \<open>start\<close>.
\<close>

definition linspace :: "real \<Rightarrow> real \<Rightarrow> nat \<Rightarrow> real list" where
  "linspace start stop num =
     (let divisor = num - 1;
          delta = stop - start;
          y = map real [0..<num];
          y = (if 0 < divisor then map (\<lambda>v. v * (delta / real divisor)) y
               else map (\<lambda>v. v * delta) y);
          y = map (\<lambda>v. v + start) y
      in if 1 < num then y[num - 1 := stop] else y)"

text \<open>
  \<open>np.logspace(start, stop, num)\<close> is \<open>10 ** linspace(start, stop, num)\<close>; a
  negative \<open>num\<close> raises. When an end point is not finite the first sample is a
  NaN (\<open>0 * inf\<close>, or NaN plus the start); the model writes NaN for every sample
  there, and only the first one is ever read: \<open>get_box_counts\<close> raises on it.
\<close>

definition logspace :: "float64 \<Rightarrow> float64 \<Rightarrow> int \<Rightarrow> error + float64 list" where
  "logspace start stop num =
     (if num < 0 then Inl Linspace_Negative
      else case (start, stop) of
        (Num a, Num b) \<Rightarrow> Inr (map (\<lambda>v. Num (10 powr v)) (linspace a b (nat num)))
      | _ \<Rightarrow> Inr (replicate (nat num) NaN))"

text \<open>The list comprehension over the box sizes; an exception of one call ends it.\<close>

fun box_counts :: "real list \<Rightarrow> real list \<Rightarrow> float64 list \<Rightarrow> error + nat list" where
  "box_counts latitudes longitudes [] = Inr []"
| "box_counts latitudes longitudes (box_size # rest) =
     (case get_box_counts latitudes longitudes box_size of
        Inl e \<Rightarrow> Inl e
      | Inr c \<Rightarrow>
          (case box_counts latitudes longitudes rest of
             Inl e \<Rightarrow> Inl e
           | Inr cs \<Rightarrow> Inr (c # cs)))"

text \<open>The coordinate of a validated array element; validation has excluded the
  other constructors.\<close>

fun num_value :: "float64 \<Rightarrow> real" where
  "num_value (Num x) = x"
| "num_value _ = 0"

text \<open>The result dictionary; \<open>details\<close> holds \<open>box_sizes\<close>, \<open>counts\<close> and
  \<open>intercept\<close>, present when \<open>return_details\<close> is set.\<close>

record fit_result =
  D :: float64
  r_squared :: float64
  std_error :: float64
  n_points :: nat
  lat_range :: real
  lon_range :: real
  details :: "(float64 list \<times> nat list \<times> float64) option"

text \<open>
  The public entry point. \<open>min_box_size\<close> and \<open>max_box_size\<close> are finite floats,
  \<open>max_box_size = None\<close> is the omitted argument. The result pairs the warnings
  issued with \<open>warnings.warn\<close>, in order, with the exception raised or the
  dictionary returned.
\<close>

definition box_counting ::
  "float64 list \<Rightarrow> float64 list \<Rightarrow> real \<Rightarrow> real option \<Rightarrow> int \<Rightarrow> bool
     \<Rightarrow> warning list \<times> (error + fit_result)" where
  "box_counting latitudes longitudes min_box_size max_box_size num_scales return_details =
     (case validate_data latitudes longitudes of
        Inl e \<Rightarrow> ([], Inl e)
      | Inr _ \<Rightarrow>
          let lats = map num_value latitudes;
              lons = map num_value longitudes;
              lat_rng = amax lats - amin lats;
              lon_rng = amax lons - amin lons;
              max_bs = (case max_box_size of
                          None \<Rightarrow> min lat_rng lon_rng / 4
                        | Some m \<Rightarrow> m)
          in if min_box_size \<ge> max_bs then ([], Inl Box_Size_Order)
             else
               (case logspace (log10 (Num min_box_size)) (log10 (Num max_bs)) num_scales of
                  Inl e \<Rightarrow> ([], Inl e)
                | Inr box_sizes \<Rightarrow>
                    (case box_counts lats lons box_sizes of
                       Inl e \<Rightarrow> ([], Inl e)
                     | Inr counts \<Rightarrow>
                         let valid_mask = map (\<lambda>c. 0 < c) counts;
                             ws = (if length (filter id valid_mask) < 3
                                   then [Too_Few_Valid_Box_Sizes] else []);
                             box_sizes_valid = map fst (filter snd (zip box_sizes valid_mask));
                             counts_valid = map fst (filter snd (zip counts valid_mask))
                         in (case calculate_fractal_dimension box_sizes_valid counts_valid of
                               Inl e \<Rightarrow> (ws, Inl e)
                             | Inr (d, r2, se, ic) \<Rightarrow>
                                 (ws, Inr \<lparr>D = d, r_squared = r2, std_error = se,
                                           n_points = length latitudes,
                                           lat_range = lat_rng, lon_range = lon_rng,
                                           details =
                                             (if return_details
                                              then Some (box_sizes_valid, counts_valid, ic)
                                              else None)\<rparr>)))))"

subsection \<open>Auxiliary notions for the proofs\<close>

text \<open>The pair of bin numbers of a sample.\<close>

definition cell_of :: "real list \<Rightarrow> real list \<Rightarrow> real \<times> real \<Rightarrow> nat \<times> nat" where
  "cell_of xe ye p = (bin_number xe (fst p), bin_number ye (snd p))"

text \<open>
  The malformed coordinate input, in the words of the specification: both arrays
  empty, arrays of unequal length, a non-finite value, a latitude with
  \<open>|lat| > 90\<close> or a longitude with \<open>|lon| > 180\<close>.
\<close>

definition malformed :: "float64 list \<Rightarrow> float64 list \<Rightarrow> bool" where
  "malformed latitudes longitudes \<longleftrightarrow>
     (latitudes = [] \<and> longitudes = []) \<or>
     length latitudes \<noteq> length longitudes \<or>
     list_ex (\<lambda>v. \<not> isfinite v) latitudes \<or>
     list_ex (\<lambda>v. \<not> isfinite v) longitudes \<or>
     list_ex (\<lambda>v. abs_gt v 90) latitudes \<or>
     list_ex (\<lambda>v. abs_gt v 180) longitudes"

text \<open>The latitude and longitude ranges of validated arrays, and the maximum box
  size that \<open>box_counting\<close> works with: the one given, or a quarter of the smaller
  range.\<close>

definition lat_extent :: "float64 list \<Rightarrow> real" where
  "lat_extent latitudes = amax (map num_value latitudes) - amin (map num_value latitudes)"

definition lon_extent :: "float64 list \<Rightarrow> real" where
  "lon_extent longitudes = amax (map num_value longitudes) - amin (map num_value longitudes)"

definition used_max_box_size :: "float64 list \<Rightarrow> float64 list \<Rightarrow> real option \<Rightarrow> real" where
  "used_max_box_size latitudes longitudes max_box_size =
     (case max_box_size of
        None \<Rightarrow> min (lat_extent latitudes) (lon_extent longitudes) / 4
      | Some m \<Rightarrow> m)"

text \<open>The errors raised after the box size check, all of them inside numpy or scipy.\<close>

definition later_errors :: "error set" where
  "later_errors = {Linspace_Negative, Reduction_Empty, Arange_Length, Histogram_Input,
     Linregress_Empty, Linregress_Identical, Linregress_Shape}"

subsection \<open>The grid and the scale series under float64 rounding\<close>

text \<open>
  The definitions above compute in exact arithmetic; numpy computes in float64, where
  every arithmetic result is rounded, so that \<open>np.arange\<close> can return one edge more, or
  end below the maximum, and \<open>10 ** log10(x)\<close> need not be \<open>x\<close>. The definitions of
  this subsection take the rounded arithmetic as a parameter, and the exact ones are
  their instances; a property proved for every value of the parameter holds for
  float64 in particular.

  \<open>get_box_counts_on bins\<close> is \<open>get_box_counts\<close> with the edge arrays as a
  parameter: \<open>bins lo hi b\<close> stands for the array that
  \<open>np.arange(lo, hi + box_size, box_size)\<close> returns.
\<close>

definition get_box_counts_on ::
  "(real \<Rightarrow> real \<Rightarrow> real \<Rightarrow> real list) \<Rightarrow> real list \<Rightarrow> real list \<Rightarrow> float64 \<Rightarrow> error + nat" where
  "get_box_counts_on bins latitudes longitudes box_size =
     (if latitudes = [] \<or> longitudes = [] then Inl Reduction_Empty
      else case box_size of
        Num b \<Rightarrow>
          if b = 0 then Inl Arange_Length
          else
            let lat_min = amin latitudes; lat_max = amax latitudes;
                lon_min = amin longitudes; lon_max = amax longitudes;
                lat_bins = bins lat_min lat_max b;
                lon_bins = bins lon_min lon_max b
            in if length latitudes \<noteq> length longitudes \<or> lat_bins = [] \<or> lon_bins = []
               then Inl Histogram_Input
               else Inr (count_positive (histogram2d latitudes longitudes lat_bins lon_bins))
      | _ \<Rightarrow> Inl Arange_Length)"

text \<open>
  \<open>arange_fl rnd\<close> is \<open>np.arange\<close> with every arithmetic result rounded by \<open>rnd\<close>:
  the length is the ceiling of the rounded quotient of the rounded difference
  \<open>stop - start\<close> by the step; the first two elements are \<open>start\<close> and the rounded
  \<open>start + step\<close>, and the \<open>k\<close>-th is \<open>start + k * delta\<close>, rounded after the product
  and after the sum, where \<open>delta\<close> is the rounded difference of the first two. The
  edges of an axis are \<open>arange_fl rnd lo (rnd (hi + box_size)) box_size\<close>.
\<close>

definition arange_fl :: "(real \<Rightarrow> real) \<Rightarrow> real \<Rightarrow> real \<Rightarrow> real \<Rightarrow> real list" where
  "arange_fl rnd start stop step =
     (let n = nat \<lceil>rnd (rnd (stop - start) / step)\<rceil>;
          next = rnd (start + step);
          delta = rnd (next - start)
      in map (\<lambda>k. if k = 0 then start
                  else if k = 1 then next
                  else rnd (start + rnd (real k * delta))) [0..<n])"

text \<open>
  \<open>linspace_fl rnd\<close> is \<open>np.linspace\<close> with every arithmetic result rounded by
  \<open>rnd\<close>, following numpy's source statement by statement: \<open>delta = stop - start\<close>,
  \<open>step = delta / div\<close>, then \<open>y *= step\<close> (or \<open>y /= div; y *= delta\<close> when the step
  is zero, and \<open>y = y * delta\<close> when there is at most one sample), \<open>y += start\<close>, and
  the last sample overwritten by \<open>stop\<close> when there are at least two.
  \<open>logspace_fl rnd pw\<close> applies \<open>pw\<close>, which stands for float64's \<open>10 ** y\<close>.
\<close>

definition linspace_fl :: "(real \<Rightarrow> real) \<Rightarrow> real \<Rightarrow> real \<Rightarrow> nat \<Rightarrow> real list" where
  "linspace_fl rnd start stop num =
     (let divisor = num - 1;
          delta = rnd (stop - start);
          y = map real [0..<num];
          y = (if 0 < divisor
               then (let step = rnd (delta / real divisor)
                     in if step = 0
                        then map (\<lambda>v. rnd (rnd (v / real divisor) * delta)) y
                        else map (\<lambda>v. rnd (v * step)) y)
               else map (\<lambda>v. rnd (v * delta)) y);
          y = map (\<lambda>v. rnd (v + start)) y
      in if 1 < num then y[num - 1 := stop] else y)"

definition logspace_fl ::
  "(real \<Rightarrow> real) \<Rightarrow> (real \<Rightarrow> real) \<Rightarrow> real \<Rightarrow> real \<Rightarrow> nat \<Rightarrow> real list" where
  "logspace_fl rnd pw start stop num = map pw (linspace_fl rnd start stop num)"

section \<open>Properties\<close>

subsection \<open>The bin edges\<close>

lemma ceiling_nonneg: "0 \<le> (x::real) \<Longrightarrow> 0 \<le> \<lceil>x\<rceil>"
  by simp

lemma arange_length:
  assumes "0 < b" "mn \<le> mx"
  shows "length (arange mn (mx + b) b) = nat \<lceil>(mx - mn) / b\<rceil> + 1"
proof -
  have "(mx + b - mn) / b = (mx - mn) / b + 1"
    using assms by (simp add: field_simps)
  moreover have "0 \<le> \<lceil>(mx - mn) / b\<rceil>"
    using assms by (intro ceiling_nonneg) simp
  ultimately show ?thesis
    by (simp add: arange_def nat_add_distrib)
qed

lemma arange_nth:
  "k < length (arange s t b) \<Longrightarrow> arange s t b ! k = s + real k * b"
  by (simp add: arange_def)

lemma arange_set:
  "set (arange s t b) = (\<lambda>k. s + real k * b) ` {0..<length (arange s t b)}"
  by (simp add: arange_def)

lemma arange_last:
  assumes "0 < b" "mn \<le> mx"
  shows "last (arange mn (mx + b) b) = mn + real (nat \<lceil>(mx - mn) / b\<rceil>) * b"
proof -
  let ?E = "arange mn (mx + b) b"
  have len: "length ?E = nat \<lceil>(mx - mn) / b\<rceil> + 1" using assms by (rule arange_length)
  then have "?E \<noteq> []" by auto
  then have "last ?E = ?E ! (length ?E - 1)" by (rule last_conv_nth)
  also have "\<dots> = mn + real (length ?E - 1) * b" by (rule arange_nth) (simp add: len)
  finally show ?thesis by (simp add: len)
qed

lemma arange_last_ge:
  assumes "0 < b" "mn \<le> mx"
  shows "mx \<le> last (arange mn (mx + b) b)"
proof -
  have "0 \<le> \<lceil>(mx - mn) / b\<rceil>" using assms by (intro ceiling_nonneg) simp
  then have "real (nat \<lceil>(mx - mn) / b\<rceil>) = real_of_int \<lceil>(mx - mn) / b\<rceil>" by simp
  moreover have "(mx - mn) / b \<le> real_of_int \<lceil>(mx - mn) / b\<rceil>" by (rule le_of_int_ceiling)
  ultimately have "(mx - mn) / b \<le> real (nat \<lceil>(mx - mn) / b\<rceil>)" by simp
  then have "mx - mn \<le> real (nat \<lceil>(mx - mn) / b\<rceil>) * b"
    using assms(1) by (simp add: pos_divide_le_eq)
  then show ?thesis using assms by (simp add: arange_last)
qed

lemma arange_le_last:
  assumes "0 < b" "mn \<le> mx" "e \<in> set (arange mn (mx + b) b)"
  shows "e \<le> last (arange mn (mx + b) b)"
proof -
  let ?E = "arange mn (mx + b) b"
  from assms(3) obtain k where k: "k < length ?E" "e = mn + real k * b"
    by (auto simp: arange_set)
  have "length ?E = nat \<lceil>(mx - mn) / b\<rceil> + 1" using assms by (simp add: arange_length)
  with k have "real k \<le> real (nat \<lceil>(mx - mn) / b\<rceil>)" by simp
  then have "real k * b \<le> real (nat \<lceil>(mx - mn) / b\<rceil>) * b"
    using assms(1) by (simp add: mult_right_mono)
  then show ?thesis using k assms by (simp add: arange_last)
qed

lemma bin_number_core:
  assumes b: "0 < b" and lt: "mn < mx" and v: "mn \<le> v" "v \<le> mx"
  shows "bin_number (arange mn (mx + b) b) v \<in> {1..<length (arange mn (mx + b) b)}"
proof -
  let ?E = "arange mn (mx + b) b"
  let ?k = "length (filter (\<lambda>e. e \<le> v) ?E)"
  have le: "mn \<le> mx" using lt by simp
  have "0 < (mx - mn) / b" using b lt by simp
  then have "0 < \<lceil>(mx - mn) / b\<rceil>" by (simp add: less_ceiling_iff)
  then have "1 \<le> nat \<lceil>(mx - mn) / b\<rceil>" by linarith
  then have len2: "2 \<le> length ?E" using b le by (simp add: arange_length)
  have ne: "?E \<noteq> []" using len2 by auto
  have pos: "0 < length ?E" using len2 by linarith
  have "?E ! 0 = mn + real 0 * b" using pos by (rule arange_nth)
  then have "?E ! 0 = mn" by simp
  then have "mn \<in> set ?E" using pos nth_mem by metis
  then have "filter (\<lambda>e. e \<le> v) ?E \<noteq> []" using v(1) by (auto simp: filter_empty_conv)
  then have k1: "1 \<le> ?k" by (simp add: Suc_le_eq)
  show ?thesis
  proof (cases "v = last ?E")
    case True
    have "filter (\<lambda>e. e \<le> v) ?E = ?E"
      using arange_le_last[OF b le] True by (simp add: filter_id_conv)
    then have "searchsorted_right ?E v = length ?E"
      by (simp add: searchsorted_right_def)
    then have "bin_number ?E v = length ?E - 1"
      using True by (simp add: bin_number_def)
    moreover have "1 \<le> length ?E - 1" "length ?E - 1 < length ?E"
      using len2 by linarith+
    ultimately show ?thesis by simp
  next
    case False
    have "v < last ?E" using False v(2) arange_last_ge[OF b le] by simp
    moreover have "last ?E \<in> set ?E" using ne by (rule last_in_set)
    ultimately have "?k < length ?E"
      by (intro length_filter_less[of "last ?E"]) auto
    then show ?thesis using False k1
      by (simp add: bin_number_def searchsorted_right_def)
  qed
qed
lemma occupied_iff:
  "0 < length (filter (\<lambda>(x, y). bin_number xe x = i \<and> bin_number ye y = j) ps)
     \<longleftrightarrow> (i, j) \<in> cell_of xe ye ` set ps"
proof -
  have "0 < length (filter (\<lambda>(x, y). bin_number xe x = i \<and> bin_number ye y = j) ps)
     \<longleftrightarrow> (\<exists>p\<in>set ps. bin_number xe (fst p) = i \<and> bin_number ye (snd p) = j)"
    by (simp add: filter_empty_conv case_prod_beta)
  also have "\<dots> \<longleftrightarrow> (i, j) \<in> cell_of xe ye ` set ps"
    unfolding image_iff cell_of_def by (intro bex_cong refl) auto
  finally show ?thesis .
qed

lemma row_count:
  "length (filter (\<lambda>c. 0 < c) (map (\<lambda>j. length (filter (P j) ps)) js))
     = length (filter (\<lambda>j. 0 < length (filter (P j) ps)) js)"
  by (induction js) simp_all


lemma row_card:
  "length (filter (\<lambda>c. 0 < c)
      (map (\<lambda>j. length (filter (\<lambda>(x, y). bin_number xe x = i \<and> bin_number ye y = j) ps))
           [1..<n]))
   = card {j \<in> {1..<n}. (i, j) \<in> cell_of xe ye ` set ps}"
proof -
  have "length (filter (\<lambda>c. 0 < c)
      (map (\<lambda>j. length (filter (\<lambda>(x, y). bin_number xe x = i \<and> bin_number ye y = j) ps))
           [1..<n]))
     = length (filter (\<lambda>j. (i, j) \<in> cell_of xe ye ` set ps) [1..<n])"
    by (simp only: row_count occupied_iff)
  also have "\<dots> = card ({j. (i, j) \<in> cell_of xe ye ` set ps} \<inter> set [1..<n])"
    by (rule distinct_length_filter) simp
  also have "{j. (i, j) \<in> cell_of xe ye ` set ps} \<inter> set [1..<n]
               = {j \<in> {1..<n}. (i, j) \<in> cell_of xe ye ` set ps}"
    by (simp add: Int_def conj_commute)
  finally show ?thesis .
qed

lemma count_positive_card:
  "count_positive (histogram2d xs ys xe ye) =
     card (cell_of xe ye ` set (zip xs ys) \<inter> ({1..<length xe} \<times> {1..<length ye}))"
proof -
  let ?C = "cell_of xe ye ` set (zip xs ys)"
  have "count_positive (histogram2d xs ys xe ye)
        = (\<Sum>i\<leftarrow>[1..<length xe]. card {j \<in> {1..<length ye}. (i, j) \<in> ?C})"
    by (simp only: count_positive_def histogram2d_def map_map o_def row_card)
  also have "\<dots> = (\<Sum>i\<in>{1..<length xe}. card {j \<in> {1..<length ye}. (i, j) \<in> ?C})"
    by (simp only: interv_sum_list_conv_sum_set_nat set_upt)
  also have "\<dots> = card (SIGMA i:{1..<length xe}. {j \<in> {1..<length ye}. (i, j) \<in> ?C})"
    by (rule card_SigmaI[symmetric]) simp_all
  also have "(SIGMA i:{1..<length xe}. {j \<in> {1..<length ye}. (i, j) \<in> ?C})
             = ?C \<inter> ({1..<length xe} \<times> {1..<length ye})"
    by (rule set_eqI) (simp add: split_paired_all conj_commute conj_left_commute)
  finally show ?thesis .
qed
lemma count_positive_le:
  "count_positive (histogram2d xs ys xe ye) \<le> length (zip xs ys)"
proof -
  let ?C = "cell_of xe ye ` set (zip xs ys)"
  have "card (?C \<inter> ({1..<length xe} \<times> {1..<length ye})) \<le> card ?C"
    by (rule card_mono) simp_all
  also have "\<dots> \<le> card (set (zip xs ys))" by (rule card_image_le) simp
  also have "\<dots> \<le> length (zip xs ys)" by (rule card_length)
  finally show ?thesis by (simp only: count_positive_card)
qed
lemma in_set_not_empty: "x \<in> A \<Longrightarrow> A \<noteq> {}"
  by (rule notI) (simp only: empty_iff)

lemma count_positive_ge:
  assumes "p \<in> set (zip xs ys)"
      and "cell_of xe ye p \<in> {1..<length xe} \<times> {1..<length ye}"
  shows "1 \<le> count_positive (histogram2d xs ys xe ye)"
proof -
  let ?C = "cell_of xe ye ` set (zip xs ys)"
  let ?S = "?C \<inter> ({1..<length xe} \<times> {1..<length ye})"
  have "cell_of xe ye p \<in> ?C" using assms(1) by (rule imageI)
  then have "cell_of xe ye p \<in> ?S" using assms(2) by (rule IntI)
  then have ne: "?S \<noteq> {}" by (rule in_set_not_empty)
  have fin: "finite ?S" by simp
  have "0 < card ?S" by (rule iffD2[OF card_gt_0_iff]) (intro conjI ne fin)
  then have "1 \<le> card ?S" by linarith
  then show ?thesis by (simp only: count_positive_card)
qed
lemma count_positive_single_cell:
  assumes "length xe = 2" "length ye = 2"
  shows "count_positive (histogram2d xs ys xe ye) \<le> 1"
proof -
  have "{1..<(2::nat)} = {1}" by (simp add: atLeastLessThan_eq_iff set_eq_iff) arith
  then have "{1..<length xe} \<times> {1..<length ye} = {(1::nat, 1::nat)}"
    by (simp only: assms) simp
  then have "card (cell_of xe ye ` set (zip xs ys) \<inter> ({1..<length xe} \<times> {1..<length ye}))
               \<le> card {(1::nat, 1::nat)}"
    by (intro card_mono) simp_all
  then show ?thesis by (simp only: count_positive_card) simp
qed
lemma count_positive_no_row:
  "length xe = 1 \<Longrightarrow> count_positive (histogram2d xs ys xe ye) = 0"
  by (simp only: count_positive_card) simp
lemma count_positive_no_column:
  "length ye = 1 \<Longrightarrow> count_positive (histogram2d xs ys xe ye) = 0"
  by (simp only: count_positive_card) simp

subsection \<open>The occupancy count\<close>

lemma amin_le: "x \<in> set xs \<Longrightarrow> amin xs \<le> x"
  by (simp add: amin_def)

lemma amax_ge: "x \<in> set xs \<Longrightarrow> x \<le> amax xs"
  by (simp add: amax_def)

lemma amin_le_amax: "xs \<noteq> [] \<Longrightarrow> amin xs \<le> amax xs"
  by (simp add: amin_def amax_def)

lemma arange_not_Nil:
  "0 < b \<Longrightarrow> mn \<le> mx \<Longrightarrow> arange mn (mx + b) b \<noteq> []"
  using arange_length[of b mn mx] by auto

lemma arange_length_flat:
  "0 < b \<Longrightarrow> length (arange mn (mn + b) b) = 1"
  using arange_length[of b mn mn] by simp

lemma arange_length_wide:
  assumes "0 < b" "mn < mx" "mx - mn < b"
  shows "length (arange mn (mx + b) b) = 2"
proof -
  have "0 < (mx - mn) / b" "(mx - mn) / b \<le> 1" using assms by simp_all
  then have "\<lceil>(mx - mn) / b\<rceil> = 1" by (simp add: ceiling_eq_iff)
  then show ?thesis using assms arange_length[of b mn mx] by simp
qed

lemma get_box_counts_grid:
  assumes "0 < b" "latitudes \<noteq> []" "length latitudes = length longitudes"
  shows "get_box_counts latitudes longitudes (Num b) =
           Inr (count_positive (histogram2d latitudes longitudes
                  (arange (amin latitudes) (amax latitudes + b) b)
                  (arange (amin longitudes) (amax longitudes + b) b)))"
proof -
  have ne: "longitudes \<noteq> []" using assms(2,3) by auto
  have "arange (amin latitudes) (amax latitudes + b) b \<noteq> []"
    using assms(1) amin_le_amax[OF assms(2)] by (rule arange_not_Nil)
  moreover have "arange (amin longitudes) (amax longitudes + b) b \<noteq> []"
    using assms(1) amin_le_amax[OF ne] by (rule arange_not_Nil)
  ultimately show ?thesis
    using assms ne by (simp add: get_box_counts_def Let_def)
qed

lemma get_box_counts_flat:
  assumes "0 < b" "latitudes \<noteq> []" "length latitudes = length longitudes"
      and "amax latitudes = amin latitudes \<or> amax longitudes = amin longitudes"
  shows "get_box_counts latitudes longitudes (Num b) = Inr 0"
  using assms(4)
proof
  assume "amax latitudes = amin latitudes"
  then have "length (arange (amin latitudes) (amax latitudes + b) b) = 1"
    using assms(1) by (simp add: arange_length_flat)
  then show ?thesis
    by (simp only: get_box_counts_grid[OF assms(1-3)] count_positive_no_row)
next
  assume "amax longitudes = amin longitudes"
  then have "length (arange (amin longitudes) (amax longitudes + b) b) = 1"
    using assms(1) by (simp add: arange_length_flat)
  then show ?thesis
    by (simp only: get_box_counts_grid[OF assms(1-3)] count_positive_no_column)
qed

lemma cell_in_core:
  assumes b: "0 < b" and len: "length latitudes = length longitudes"
      and lat: "amin latitudes < amax latitudes" and lon: "amin longitudes < amax longitudes"
      and p: "p \<in> set (zip latitudes longitudes)"
  shows "cell_of (arange (amin latitudes) (amax latitudes + b) b)
                 (arange (amin longitudes) (amax longitudes + b) b) p
         \<in> {1..<length (arange (amin latitudes) (amax latitudes + b) b)}
           \<times> {1..<length (arange (amin longitudes) (amax longitudes + b) b)}"
proof -
  obtain x y where xy: "p = (x, y)" by (cases p)
  have x: "x \<in> set latitudes" using p unfolding xy by (rule set_zip_leftD)
  have y: "y \<in> set longitudes" using p unfolding xy by (rule set_zip_rightD)
  have "bin_number (arange (amin latitudes) (amax latitudes + b) b) x
          \<in> {1..<length (arange (amin latitudes) (amax latitudes + b) b)}"
    using b lat amin_le[OF x] amax_ge[OF x] by (rule bin_number_core)
  moreover have "bin_number (arange (amin longitudes) (amax longitudes + b) b) y
          \<in> {1..<length (arange (amin longitudes) (amax longitudes + b) b)}"
    using b lon amin_le[OF y] amax_ge[OF y] by (rule bin_number_core)
  ultimately show ?thesis
    unfolding xy cell_of_def fst_conv snd_conv by (rule SigmaI)
qed

lemma get_box_counts_bounds:
  assumes b: "0 < b" and ne: "latitudes \<noteq> []" and len: "length latitudes = length longitudes"
      and lat: "amin latitudes < amax latitudes" and lon: "amin longitudes < amax longitudes"
  shows "\<exists>c. get_box_counts latitudes longitudes (Num b) = Inr c \<and> 1 \<le> c \<and> c \<le> length latitudes"
proof -
  let ?xe = "arange (amin latitudes) (amax latitudes + b) b"
  let ?ye = "arange (amin longitudes) (amax longitudes + b) b"
  let ?c = "count_positive (histogram2d latitudes longitudes ?xe ?ye)"
  have "zip latitudes longitudes \<noteq> []" using ne len by (cases latitudes; cases longitudes) simp_all
  then obtain p where p: "p \<in> set (zip latitudes longitudes)"
    by (meson last_in_set)
  have "1 \<le> ?c"
    using p cell_in_core[OF b len lat lon p] by (rule count_positive_ge)
  moreover have "?c \<le> length latitudes"
    using count_positive_le[of latitudes longitudes ?xe ?ye] len by simp
  ultimately show ?thesis
    by (simp only: get_box_counts_grid[OF b ne len]) simp
qed

lemma get_box_counts_le:
  assumes "get_box_counts latitudes longitudes box_size = Inr c"
  shows "c \<le> length latitudes"
proof -
  have "count_positive (histogram2d latitudes longitudes xe ye) \<le> length latitudes" for xe ye
    using count_positive_le[of latitudes longitudes xe ye] by simp
  then show ?thesis
    using assms
    by (auto simp: get_box_counts_def Let_def split: if_splits float64.splits)
qed

lemma get_box_counts_wide:
  assumes b: "0 < b" and ne: "latitudes \<noteq> []" and len: "length latitudes = length longitudes"
      and lat: "amin latitudes < amax latitudes" "amax latitudes - amin latitudes < b"
      and lon: "amin longitudes < amax longitudes" "amax longitudes - amin longitudes < b"
  shows "get_box_counts latitudes longitudes (Num b) = Inr 1"
proof -
  let ?xe = "arange (amin latitudes) (amax latitudes + b) b"
  let ?ye = "arange (amin longitudes) (amax longitudes + b) b"
  obtain c where c: "get_box_counts latitudes longitudes (Num b) = Inr c" "1 \<le> c"
    using get_box_counts_bounds[OF b ne len lat(1) lon(1)] by blast
  have "length ?xe = 2" "length ?ye = 2"
    using b lat lon by (simp_all add: arange_length_wide)
  then have "count_positive (histogram2d latitudes longitudes ?xe ?ye) \<le> 1"
    by (rule count_positive_single_cell)
  then have "c \<le> 1" using c(1) by (simp add: get_box_counts_grid[OF b ne len])
  then show ?thesis using c by simp
qed

subsection \<open>The regression on the exact grid\<close>

lemma mean_pair: "mean [a, b] = (a + b) / 2"
  by (simp add: mean_def)

lemma linregress_finite_two:
  assumes "0 < L"
  shows "linregress_finite [0, L] [2 * L, 0] =
           \<lparr>slope = Num (- 2), intercept = Num (2 * L), rvalue = Num (- 1), stderr = Num 0\<rparr>"
proof -
  have xm: "mean [0, L] = L / 2" and ym: "mean [2 * L, 0] = L"
    by (simp_all add: mean_pair)
  have ssxm: "mean (map (\<lambda>u. (u - L / 2) * (u - L / 2)) [0, L]) = L * L / 4"
    by (simp add: mean_pair field_simps)
  have ssxym: "mean (map (\<lambda>(u, v). (u - L / 2) * (v - L)) (zip [0, L] [2 * L, 0])) = - (L * L / 2)"
    by (simp add: mean_pair field_simps)
  have ssym: "mean (map (\<lambda>v. (v - L) * (v - L)) [2 * L, 0]) = L * L"
    by (simp add: mean_pair field_simps)
  have "L * L / 4 * (L * L) = (L * L / 2)\<^sup>2"
    by (simp add: power2_eq_square field_simps)
  then have sq: "sqrt (L * L / 4 * (L * L)) = L * L / 2"
    using assms by (simp only: real_sqrt_abs) simp
  have pos: "L * L \<noteq> 0" using assms by simp
  have q: "- (L * L / 2) / (L * L / 2) = - 1" using pos by simp
  have sl: "- (L * L / 2) / (L * L / 4) = - 2" using pos by (simp add: field_simps)
  show ?thesis
    unfolding linregress_finite_def Let_def xm ym ssxm ssxym ssym sq q sl
    using pos by simp
qed

lemma log10_4: "log 10 4 = 2 * log 10 2"
proof -
  have "log 10 4 = log 10 (2 ^ 2)" by simp
  also have "\<dots> = 2 * log 10 2" by (subst log_nat_power) simp_all
  finally show ?thesis .
qed

lemma calculate_fractal_dimension_grid:
  "calculate_fractal_dimension [Num 1, Num 2] [4, 1] =
     Inr (Num 2, Num 1, Num 0, Num (log 10 4))"
proof -
  have L: "0 < log 10 2" by simp
  from L have nz: "log 10 2 \<noteq> 0" by linarith
  have ne: "amax [0, log 10 2] \<noteq> amin [0, log 10 2]"
    using nz by (simp add: amax_def amin_def)
  show ?thesis
    using ne
    by (simp add: calculate_fractal_dimension_def linregress_def log10_4
        linregress_finite_two[OF L])
qed

subsection \<open>The stages of box\_counting\<close>

lemma validate_data_cases:
  "validate_data latitudes longitudes = Inr () \<or>
   (\<exists>e. validate_data latitudes longitudes = Inl e \<and> is_ValidationError e)"
  by (simp add: validate_data_def)

lemma validate_data_Inl:
  "validate_data latitudes longitudes = Inl e \<Longrightarrow> is_ValidationError e"
  by (auto simp: validate_data_def split: if_splits)

lemma validate_data_ok_iff:
  "validate_data latitudes longitudes = Inr () \<longleftrightarrow> \<not> malformed latitudes longitudes"
  by (auto simp: validate_data_def malformed_def list_all_iff list_ex_iff)

lemma validate_data_okD:
  assumes "validate_data latitudes longitudes = Inr ()"
  shows "latitudes \<noteq> []" "length latitudes = length longitudes"
        "list_all isfinite latitudes" "list_all isfinite longitudes"
  using assms by (auto simp: validate_data_def split: if_splits)

lemma logspace_Inl: "logspace a b n = Inl e \<Longrightarrow> e = Linspace_Negative"
  by (auto simp: logspace_def split: if_splits float64.splits)

lemma get_box_counts_Inl:
  "get_box_counts lats lons bs = Inl e \<Longrightarrow> e \<in> {Reduction_Empty, Arange_Length, Histogram_Input}"
  by (auto simp: get_box_counts_def Let_def split: if_splits float64.splits)

lemma box_counts_Inl:
  "box_counts lats lons bss = Inl e \<Longrightarrow> e \<in> {Reduction_Empty, Arange_Length, Histogram_Input}"
proof (induction bss arbitrary: e)
  case Nil
  then show ?case by simp
next
  case (Cons b bss)
  show ?case
  proof (cases "get_box_counts lats lons b")
    case (Inl e')
    then have "e = e'" using Cons.prems by simp
    then show ?thesis using get_box_counts_Inl[OF Inl] by simp
  next
    case (Inr c)
    then show ?thesis using Cons by (auto split: sum.splits)
  qed
qed

lemma linregress_Inl:
  "linregress xs ys = Inl e \<Longrightarrow> e \<in> {Linregress_Empty, Linregress_Identical, Linregress_Shape}"
  by (auto simp: linregress_def split: if_splits option.splits)

lemma calculate_fractal_dimension_Inl:
  "calculate_fractal_dimension bs cs = Inl e \<Longrightarrow>
     e \<in> {Linregress_Empty, Linregress_Identical, Linregress_Shape}"
  by (auto simp: calculate_fractal_dimension_def Let_def split: sum.splits dest: linregress_Inl)


lemma box_counting_invalid:
  "validate_data latitudes longitudes = Inl e \<Longrightarrow>
     box_counting latitudes longitudes mn mx n d = ([], Inl e)"
  by (simp add: box_counting_def)

lemma used_max_box_size_unfold:
  "(case mx of
      None \<Rightarrow> min (amax (map num_value latitudes) - amin (map num_value latitudes))
                 (amax (map num_value longitudes) - amin (map num_value longitudes)) / 4
    | Some m \<Rightarrow> m) = used_max_box_size latitudes longitudes mx"
  by (simp add: used_max_box_size_def lat_extent_def lon_extent_def split: option.splits)

lemma box_counting_order:
  assumes "validate_data latitudes longitudes = Inr ()"
      and "used_max_box_size latitudes longitudes mx \<le> mn"
  shows "box_counting latitudes longitudes mn mx n d = ([], Inl Box_Size_Order)"
  using assms
  by (simp add: box_counting_def Let_def used_max_box_size_unfold)


lemma box_counting_later:
  assumes ok: "validate_data latitudes longitudes = Inr ()"
      and lt: "mn < used_max_box_size latitudes longitudes mx"
      and res: "box_counting latitudes longitudes mn mx n d = (ws, Inl e)"
  shows "e \<in> later_errors"
proof -
  let ?lats = "map num_value latitudes" and ?lons = "map num_value longitudes"
  let ?mx = "used_max_box_size latitudes longitudes mx"
  note mx = used_max_box_size_unfold
  show ?thesis
  proof (cases "logspace (log10 (Num mn)) (log10 (Num ?mx)) n")
    case (Inl e1)
    then have "e = e1" using ok lt res by (simp add: box_counting_def Let_def mx)
    then show ?thesis using logspace_Inl[OF Inl] by (simp add: later_errors_def)
  next
    case sizes: (Inr box_sizes)
    show ?thesis
    proof (cases "box_counts ?lats ?lons box_sizes")
      case (Inl e2)
      then have "e = e2" using ok lt res sizes by (simp add: box_counting_def Let_def mx)
      then show ?thesis using box_counts_Inl[OF Inl] by (auto simp: later_errors_def)
    next
      case counts: (Inr counts)
      let ?mask = "map (\<lambda>c. 0 < c) counts"
      let ?bv = "map fst (filter snd (zip box_sizes ?mask))"
      let ?cv = "map fst (filter snd (zip counts ?mask))"
      show ?thesis
      proof (cases "calculate_fractal_dimension ?bv ?cv")
        case (Inl e3)
        then have "e = e3" using ok lt res sizes counts
          by (simp add: box_counting_def Let_def mx)
        then show ?thesis using calculate_fractal_dimension_Inl[OF Inl]
          by (auto simp: later_errors_def)
      next
        case (Inr r)
        then have False using ok lt res sizes counts
          by (simp add: box_counting_def Let_def mx split: prod.splits)
        then show ?thesis ..
      qed
    qed
  qed
qed


lemma extent_nonneg:
  assumes "validate_data latitudes longitudes = Inr ()"
  shows "0 \<le> lat_extent latitudes" "0 \<le> lon_extent longitudes"
proof -
  have "map num_value latitudes \<noteq> []" "map num_value longitudes \<noteq> []"
    using validate_data_okD(1,2)[OF assms] by auto
  then show "0 \<le> lat_extent latitudes" "0 \<le> lon_extent longitudes"
    using amin_le_amax by (simp_all add: lat_extent_def lon_extent_def)
qed

lemma box_counts_flat:
  assumes ne: "lats \<noteq> []" and len: "length lats = length lons"
      and flat: "amax lats = amin lats \<or> amax lons = amin lons"
      and pos: "list_all (\<lambda>s. \<exists>b. 0 < b \<and> s = Num b) sizes"
  shows "box_counts lats lons sizes = Inr (replicate (length sizes) 0)"
  using pos
proof (induction sizes)
  case Nil
  show ?case by simp
next
  case (Cons s sizes)
  then obtain b where b: "0 < b" "s = Num b" by auto
  have "get_box_counts lats lons s = Inr 0"
    unfolding b(2) using b(1) ne len flat by (rule get_box_counts_flat)
  moreover have "box_counts lats lons sizes = Inr (replicate (length sizes) 0)"
    using Cons by simp
  ultimately show ?case by simp
qed

lemma filter_snd_all_False:
  "filter snd (zip xs (map (\<lambda>c. 0 < c) (replicate k (0::nat)))) = []"
  by (auto simp: filter_empty_conv dest: set_zip_rightD)

lemma calculate_fractal_dimension_empty:
  "calculate_fractal_dimension [] [] = Inl Linregress_Empty"
  by (simp add: calculate_fractal_dimension_def linregress_def)

lemma logspace_positive:
  assumes "0 < a" "0 < b" "0 \<le> n"
  shows "\<exists>sizes. logspace (log10 (Num a)) (log10 (Num b)) n = Inr sizes \<and>
           list_all (\<lambda>s. \<exists>b. 0 < b \<and> s = Num b) sizes"
  using assms by (simp add: logspace_def list_all_iff)

lemma box_counting_flat:
  assumes ok: "validate_data latitudes longitudes = Inr ()"
      and flat: "lat_extent latitudes = 0 \<or> lon_extent longitudes = 0"
      and mn: "0 < mn" "mn < m" and n: "0 \<le> n"
  shows "box_counting latitudes longitudes mn (Some m) n d =
           ([Too_Few_Valid_Box_Sizes], Inl Linregress_Empty)"
proof -
  let ?lats = "map num_value latitudes" and ?lons = "map num_value longitudes"
  have ne: "?lats \<noteq> []" and len: "length ?lats = length ?lons"
    using validate_data_okD(1,2)[OF ok] by simp_all
  have flat': "amax ?lats = amin ?lats \<or> amax ?lons = amin ?lons"
    using flat by (simp add: lat_extent_def lon_extent_def)
  obtain sizes where sizes: "logspace (log10 (Num mn)) (log10 (Num m)) n = Inr sizes"
      "list_all (\<lambda>s. \<exists>b. 0 < b \<and> s = Num b) sizes"
    using logspace_positive[of mn m n] mn n by auto
  have counts: "box_counts ?lats ?lons sizes = Inr (replicate (length sizes) 0)"
    using ne len flat' sizes(2) by (rule box_counts_flat)
  show ?thesis
    using ok mn(2) sizes(1) counts
    by (simp add: box_counting_def Let_def filter_snd_all_False
        calculate_fractal_dimension_empty del: replicate.simps map_replicate)
qed

subsection \<open>The scale series in exact arithmetic\<close>

lemma linspace_length: "length (linspace a b n) = n"
  by (simp add: linspace_def Let_def)

lemma linspace_nth:
  assumes "2 \<le> n" "i < n"
  shows "linspace a b n ! i = a + real i * ((b - a) / real (n - 1))"
proof (cases "i = n - 1")
  case True
  have "real (n - 1) \<noteq> 0" using assms(1) by simp
  then have "a + real (n - 1) * ((b - a) / real (n - 1)) = b" by simp
  then show ?thesis using assms True by (simp add: linspace_def Let_def)
next
  case False
  then show ?thesis using assms by (simp add: linspace_def Let_def)
qed

lemma linspace_single: "linspace a b (Suc 0) = [a]"
  by (simp add: linspace_def)

lemma linspace_mono:
  assumes "2 \<le> n" "a < b" "i < j" "j < n"
  shows "linspace a b n ! i < linspace a b n ! j"
proof -
  have "0 < (b - a) / real (n - 1)" using assms(1,2) by simp
  moreover have "real i < real j" using assms(3) by simp
  ultimately have "real i * ((b - a) / real (n - 1)) < real j * ((b - a) / real (n - 1))"
    by (rule mult_strict_right_mono[rotated])
  then show ?thesis using assms by (simp add: linspace_nth)
qed


lemma sorted_wrt_nthI:
  "(\<And>i j. i < j \<Longrightarrow> j < length xs \<Longrightarrow> P (xs ! i) (xs ! j)) \<Longrightarrow> sorted_wrt P xs"
  by (simp add: sorted_wrt_iff_nth_less)

lemma scale_series_many:
  assumes "0 < mn" "mn < mx" "2 \<le> N"
  shows "\<exists>ss. logspace (log10 (Num mn)) (log10 (Num mx)) (int N) = Inr (map Num ss) \<and>
           length ss = N \<and> sorted_wrt (<) ss \<and> hd ss = mn \<and> last ss = mx \<and>
           (\<forall>i. Suc i < N \<longrightarrow>
              log 10 (ss ! Suc i) - log 10 (ss ! i) = (log 10 mx - log 10 mn) / real (N - 1))"
proof -
  let ?a = "log 10 mn" and ?b = "log 10 mx"
  let ?ls = "linspace ?a ?b N"
  let ?ss = "map (\<lambda>v. 10 powr v) ?ls"
  have pos: "0 < mx" using assms(1,2) by simp
  have ab: "?a < ?b" using assms(1,2) by simp
  have len: "length ?ss = N" by (simp add: linspace_length)
  have nth: "?ss ! i = 10 powr (?a + real i * ((?b - ?a) / real (N - 1)))" if "i < N" for i
    using that assms(3) by (simp add: linspace_length linspace_nth)
  have "logspace (log10 (Num mn)) (log10 (Num mx)) (int N) = Inr (map Num ?ss)"
    using assms(1) pos by (simp add: logspace_def o_def)
  moreover have "sorted_wrt (<) ?ss"
  proof (rule sorted_wrt_nthI)
    fix i j assume ij: "i < j" "j < length ?ss"
    then have "j < N" "i < N" by (simp_all add: linspace_length)
    then have "?ls ! i < ?ls ! j" using linspace_mono[OF assms(3) ab ij(1)] by simp
    then show "?ss ! i < ?ss ! j"
      using \<open>i < N\<close> \<open>j < N\<close> by (simp add: linspace_length)
  qed
  moreover have "hd ?ss = mn"
  proof -
    have "hd ?ss = ?ss ! 0" using len assms(3) by (intro hd_conv_nth) auto
    also have "\<dots> = 10 powr ?a" using nth[of 0] assms(3) by simp
    also have "\<dots> = mn" using assms(1) by simp
    finally show ?thesis .
  qed
  moreover have "last ?ss = mx"
  proof -
    have "real (N - 1) \<noteq> 0" using assms(3) by simp
    then have e: "?a + real (N - 1) * ((?b - ?a) / real (N - 1)) = ?b" by simp
    have "last ?ss = ?ss ! (N - 1)" using len assms(3) by (subst last_conv_nth) auto
    also have "\<dots> = 10 powr ?b" using nth[of "N - 1"] assms(3) e by simp
    also have "\<dots> = mx" using pos by simp
    finally show ?thesis .
  qed
  moreover have "log 10 (?ss ! Suc i) - log 10 (?ss ! i) = (?b - ?a) / real (N - 1)"
    if "Suc i < N" for i
  proof -
    have "i < N" using that by simp
    define D where "D = (?b - ?a) / real (N - 1)"
    have "log 10 (10 powr (?a + real (Suc i) * D)) - log 10 (10 powr (?a + real i * D)) = D"
      by (simp add: ring_distribs)
    then show ?thesis
      unfolding nth[OF that] nth[OF \<open>i < N\<close>] D_def .
  qed
  ultimately show ?thesis using len by blast
qed

lemma scale_series_one:
  assumes "0 < mn" "0 < mx"
  shows "logspace (log10 (Num mn)) (log10 (Num mx)) 1 = Inr [Num mn]"
  using assms by (simp add: logspace_def linspace_single)

subsection \<open>Properties that hold under every rounding\<close>

lemma get_box_counts_on_arange:
  "get_box_counts_on (\<lambda>lo hi b. arange lo (hi + b) b) latitudes longitudes box_size =
     get_box_counts latitudes longitudes box_size"
  by (simp add: get_box_counts_on_def get_box_counts_def)

lemma get_box_counts_on_le:
  assumes "get_box_counts_on bins latitudes longitudes box_size = Inr c"
  shows "c \<le> length latitudes"
proof -
  have "count_positive (histogram2d latitudes longitudes xe ye) \<le> length latitudes" for xe ye
    using count_positive_le[of latitudes longitudes xe ye] by simp
  then show ?thesis
    using assms
    by (auto simp: get_box_counts_on_def Let_def split: if_splits float64.splits)
qed

lemma linspace_fl_exact: "linspace_fl (\<lambda>x. x) start stop num = linspace start stop num"
  by (simp add: linspace_fl_def linspace_def Let_def)

lemma logspace_fl_exact:
  assumes "0 < mn" "0 < mx" "0 \<le> n"
  shows "logspace (log10 (Num mn)) (log10 (Num mx)) n =
           Inr (map Num (logspace_fl (\<lambda>x. x) (\<lambda>v. 10 powr v) (log 10 mn) (log 10 mx) (nat n)))"
  using assms by (simp add: logspace_def logspace_fl_def linspace_fl_exact o_def)






lemma arange_fl_exact: "arange_fl (\<lambda>x. x) start stop step = arange start stop step"
proof -
  have "(if k = 0 then start else if k = 1 then start + step
         else start + real k * (start + step - start)) = start + real k * step" for k :: nat
    by simp
  then show ?thesis by (simp add: arange_fl_def arange_def Let_def)
qed

lemma arange_fl_flat_zero:
  assumes "rnd 1 = 1" "rnd b = b" "0 < b"
  shows "arange_fl rnd 0 (rnd (0 + b)) b = [0]"
  using assms by (simp add: arange_fl_def)

lemma get_box_counts_on_flat_zero:
  assumes rnd: "rnd 1 = 1" "rnd b = b" "0 < b"
      and ne: "latitudes \<noteq> []" and len: "length latitudes = length longitudes"
      and flat: "amin latitudes = 0 \<and> amax latitudes = 0 \<or> amin longitudes = 0 \<and> amax longitudes = 0"
  shows "get_box_counts_on (\<lambda>lo hi b. arange_fl rnd lo (rnd (hi + b)) b)
           latitudes longitudes (Num b) = Inr 0 \<or>
         get_box_counts_on (\<lambda>lo hi b. arange_fl rnd lo (rnd (hi + b)) b)
           latitudes longitudes (Num b) = Inl Histogram_Input"
proof -
  have ne': "longitudes \<noteq> []" using ne len by auto
  have one: "arange_fl rnd 0 (rnd (0 + b)) b = [0]" using rnd by (rule arange_fl_flat_zero)
  show ?thesis
    using flat
  proof
    assume "amin latitudes = 0 \<and> amax latitudes = 0"
    then show ?thesis
      using rnd(3) ne ne' len one
      by (simp add: get_box_counts_on_def Let_def count_positive_no_row)
  next
    assume "amin longitudes = 0 \<and> amax longitudes = 0"
    then show ?thesis
      using rnd(3) ne ne' len one
      by (simp add: get_box_counts_on_def Let_def count_positive_no_column)
  qed
qed

section \<open>The claims\<close>

text \<open>
  C1 (amended). For the four points \<open>(0,0), (0,1), (1,0), (1,1)\<close> the grid occupancy
  counter returns 1 at box size 1.0 and 1 at box size 2.0: at box size 1.0 the edges
  are \<open>arange(0, 2, 1) = [0, 1]\<close> on both axes, a single cell closed on both sides,
  which holds all four points. The regression fitter applied to the box sizes
  \<open>{1.0, 2.0}\<close> with the counts \<open>{4, 1}\<close> returns \<open>D = log10(4) / log10(2) = 2\<close>,
  \<open>r_squared = 1\<close>, standard error 0 and intercept \<open>log10(4)\<close>, in exact arithmetic.
\<close>

theorem exact_grid_case:
  "get_box_counts [0, 0, 1, 1] [0, 1, 0, 1] (Num 1) = Inr 1 \<and>
   get_box_counts [0, 0, 1, 1] [0, 1, 0, 1] (Num 2) = Inr 1 \<and>
   calculate_fractal_dimension [Num 1, Num 2] [4, 1] =
     Inr (Num 2, Num 1, Num 0, Num (log 10 4)) \<and>
   log 10 4 / log 10 2 = (2::real)"
proof (intro conjI)
  show "get_box_counts [0, 0, 1, 1] [0, 1, 0, 1] (Num 1) = Inr 1" by code_simp
  show "get_box_counts [0, 0, 1, 1] [0, 1, 0, 1] (Num 2) = Inr 1" by code_simp
  show "calculate_fractal_dimension [Num 1, Num 2] [4, 1] =
     Inr (Num 2, Num 1, Num 0, Num (log 10 4))"
    by (rule calculate_fractal_dimension_grid)
  have "(0::real) < log 10 2" by simp
  then have "log 10 2 \<noteq> (0::real)" by linarith
  then show "log 10 4 / log 10 2 = (2::real)" by (simp add: log10_4)
qed

theorem exact_grid_case_witness:
  "get_box_counts [0, 0, 1, 1] [0, 1, 0, 1] (Num 1) = Inr 1"
  using exact_grid_case by (rule conjunct1)

text \<open>The count at box size 1.0 is not 4, as C1 states it.\<close>

theorem exact_grid_case_counterexample:
  "get_box_counts [0, 0, 1, 1] [0, 1, 0, 1] (Num 1) \<noteq> Inr 4"
  by code_simp

text \<open>
  C2 (defect of the code). At a single point, at three identical points and at two
  points of equal latitude under a box size larger than both ranges,
  \<open>get_box_counts\<close> returns 0 and not 1: the edges of the constant axis are
  \<open>arange(min, min + box_size, box_size) = [min]\<close>, a single edge, which makes no bin,
  so that the histogram has no cell at all. (In these three inputs \<open>min + box_size\<close>
  and the quotient by \<open>box_size\<close> are exact in float64.)
\<close>

theorem identical_points_count:
  "get_box_counts [0] [0] (Num 1) = Inr 0 \<and>
   get_box_counts [5, 5, 5] [7, 7, 7] (Num 2) = Inr 0 \<and>
   get_box_counts [10, 10] [20, 30] (Num 40) = Inr 0"
  by (intro conjI; code_simp)

theorem identical_points_count_witness:
  "get_box_counts [0] [0] (Num 1) = Inr 0"
  using identical_points_count by (rule conjunct1)

text \<open>
  C3 (defect of the code). For the single point \<open>(0, 0)\<close> and the scale series of 3 box
  sizes from 1.0 to 2.0, the estimation call counts 0 occupied cells at every scale,
  drops every scale, issues the warning and then fails inside the regression, which
  raises on empty input: it returns no result.
\<close>

theorem single_point_estimation:
  "box_counting [Num 0] [Num 0] 1 (Some 2) 3 False =
     ([Too_Few_Valid_Box_Sizes], Inl Linregress_Empty)"
proof -
  have ok: "validate_data [Num 0] [Num 0] = Inr ()" by (simp add: validate_data_def)
  have flat: "lat_extent [Num 0] = 0 \<or> lon_extent [Num 0] = 0"
    by (simp add: lat_extent_def amax_def amin_def)
  show ?thesis by (rule box_counting_flat[OF ok flat]) simp_all
qed

theorem single_point_estimation_witness:
  "snd (box_counting [Num 0] [Num 0] 1 (Some 2) 3 False) = Inl Linregress_Empty"
  using single_point_estimation by simp

text \<open>
  C4. The public entry point fails with a \<open>ValidationError\<close>, with no warning and no
  result, exactly when the coordinate input is malformed: both arrays empty, arrays
  of unequal length, a non-finite value, a latitude with \<open>|lat| > 90\<close> or a longitude
  with \<open>|lon| > 180\<close>, whatever the other parameters are.
\<close>

theorem validation_rejection:
  "(\<exists>e. box_counting latitudes longitudes mn mx n d = ([], Inl e) \<and> is_ValidationError e)
     \<longleftrightarrow> malformed latitudes longitudes"
proof
  assume "\<exists>e. box_counting latitudes longitudes mn mx n d = ([], Inl e) \<and> is_ValidationError e"
  then obtain e where e: "box_counting latitudes longitudes mn mx n d = ([], Inl e)"
      "is_ValidationError e" by blast
  show "malformed latitudes longitudes"
  proof (rule ccontr)
    assume "\<not> malformed latitudes longitudes"
    then have ok: "validate_data latitudes longitudes = Inr ()"
      by (simp add: validate_data_ok_iff)
    show False
    proof (cases "used_max_box_size latitudes longitudes mx \<le> mn")
      case True
      from box_counting_order[OF ok True] e show False by simp
    next
      case False
      then have "mn < used_max_box_size latitudes longitudes mx" by simp
      from box_counting_later[OF ok this e(1)] e(2) show False
        by (auto simp: later_errors_def)
    qed
  qed
next
  assume "malformed latitudes longitudes"
  then have "validate_data latitudes longitudes \<noteq> Inr ()"
    by (simp add: validate_data_ok_iff)
  then obtain e where e: "validate_data latitudes longitudes = Inl e" "is_ValidationError e"
    using validate_data_cases[of latitudes longitudes] by blast
  from box_counting_invalid[OF e(1)] e(2)
  show "\<exists>e. box_counting latitudes longitudes mn mx n d = ([], Inl e) \<and> is_ValidationError e"
    by blast
qed

theorem validation_rejection_witness:
  "(\<exists>e. box_counting [] [] (1 / 10) None 20 False = ([], Inl e) \<and> is_ValidationError e) \<and>
   (\<exists>e. box_counting [Num 1, Num 2] [Num 3] (1 / 10) None 20 False = ([], Inl e)
      \<and> is_ValidationError e) \<and>
   (\<exists>e. box_counting [Num 95] [Num 0] (1 / 10) None 20 False = ([], Inl e)
      \<and> is_ValidationError e) \<and>
   \<not> (\<exists>e. box_counting [Num 0, Num 1] [Num 0, Num 1] (1 / 10) None 20 False = ([], Inl e)
      \<and> is_ValidationError e)"
proof -
  have "malformed [] []" "malformed [Num 1, Num 2] [Num 3]" "malformed [Num 95] [Num 0]"
       "\<not> malformed [Num 0, Num 1] [Num 0, Num 1]"
    by (simp_all add: malformed_def)
  then show ?thesis
    by (simp only: validation_rejection simp_thms)
qed









text \<open>
  C8 (amended). For every point set, the occupied-cell counts at \<open>min_box_size\<close> and
  at \<open>max_box_size\<close> are both at most \<open>n_points\<close>, whatever edge arrays \<open>np.arange\<close>
  returns for the grid. (No order between the two counts is stated: the grid is
  anchored at the minimum of the data, and a larger box size can occupy more cells.
  No lower bound is stated either.)
\<close>

theorem occupancy_upper_bound:
  assumes "get_box_counts_on bins latitudes longitudes min_box_size = Inr c_min"
      and "get_box_counts_on bins latitudes longitudes max_box_size = Inr c_max"
  shows "c_min \<le> length latitudes \<and> c_max \<le> length latitudes"
  using assms by (blast intro: get_box_counts_on_le)

theorem occupancy_upper_bound_witness:
  "get_box_counts_on (\<lambda>lo hi b. arange lo (hi + b) b)
     [0, 5 / 2, 7 / 2, 17 / 2, 19 / 2] [0, 1 / 2, 0, 0, 0] (Num 2) = Inr 3 \<and>
   get_box_counts_on (\<lambda>lo hi b. arange lo (hi + b) b)
     [0, 5 / 2, 7 / 2, 17 / 2, 19 / 2] [0, 1 / 2, 0, 0, 0] (Num 3) = Inr 4 \<and>
   (3::nat) \<le> length [0, 5 / 2, 7 / 2, 17 / 2, 19 / 2 :: real] \<and>
   (4::nat) \<le> length [0, 5 / 2, 7 / 2, 17 / 2, 19 / 2 :: real]"
proof -
  have a: "get_box_counts_on (\<lambda>lo hi b. arange lo (hi + b) b)
     [0, 5 / 2, 7 / 2, 17 / 2, 19 / 2] [0, 1 / 2, 0, 0, 0] (Num 2) = Inr 3"
    unfolding get_box_counts_on_arange by code_simp
  have b: "get_box_counts_on (\<lambda>lo hi b. arange lo (hi + b) b)
     [0, 5 / 2, 7 / 2, 17 / 2, 19 / 2] [0, 1 / 2, 0, 0, 0] (Num 3) = Inr 4"
    unfolding get_box_counts_on_arange by code_simp
  from occupancy_upper_bound[OF a b] a b show ?thesis by blast
qed

text \<open>Five points whose count at box size 3.0 is 4 and at box size 2.0 is 3.\<close>

theorem occupancy_monotone_counterexample:
  "get_box_counts [0, 5 / 2, 7 / 2, 17 / 2, 19 / 2] [0, 1 / 2, 0, 0, 0] (Num 2) = Inr 3 \<and>
   get_box_counts [0, 5 / 2, 7 / 2, 17 / 2, 19 / 2] [0, 1 / 2, 0, 0, 0] (Num 3) = Inr 4 \<and>
   \<not> (4::nat) \<le> 3"
  by (intro conjI; code_simp)

text \<open>
  C10. For every valid input whose latitude range or longitude range is zero, with
  \<open>max_box_size\<close> omitted, the derived \<open>max_box_size\<close> is 0 and the estimation call
  fails with the \<open>min_box_size >= max_box_size\<close> error for every positive
  \<open>min_box_size\<close>, whatever \<open>num_scales\<close> and \<open>return_details\<close> are.
\<close>

theorem flat_input_default_rejected:
  assumes "validate_data latitudes longitudes = Inr ()"
      and "lat_extent latitudes = 0 \<or> lon_extent longitudes = 0"
      and "0 < mn"
  shows "used_max_box_size latitudes longitudes None = 0 \<and>
         box_counting latitudes longitudes mn None n d = ([], Inl Box_Size_Order)"
proof -
  have "min (lat_extent latitudes) (lon_extent longitudes) = 0"
    using extent_nonneg[OF assms(1)] assms(2) by auto
  then have z: "used_max_box_size latitudes longitudes None = 0"
    by (simp add: used_max_box_size_def)
  then have "used_max_box_size latitudes longitudes None \<le> mn" using assms(3) by simp
  from box_counting_order[OF assms(1) this] z show ?thesis by simp
qed

theorem flat_input_default_rejected_witness:
  "box_counting [Num 28] [Num 84] (1 / 10) None 20 False = ([], Inl Box_Size_Order)"
proof -
  have ok: "validate_data [Num 28] [Num 84] = Inr ()"
    by (simp add: validate_data_def)
  have flat: "lat_extent [Num 28] = 0 \<or> lon_extent [Num 84] = 0"
    by (simp add: lat_extent_def amax_def amin_def)
  have "(0::real) < 1 / 10" by simp
  from flat_input_default_rejected[OF ok flat this, of 20 False] show ?thesis
    by (rule conjunct2)
qed

end
